theory Spec2Isabelle
  imports Main
begin

section \<open>Values of the counter program\<close>

text \<open>
  The counters of \<^verbatim>\<open>src/counter_app/app.js\<close> hold JavaScript Numbers, which are
  IEEE 754 doubles. The program makes Numbers from the literals \<^verbatim>\<open>0\<close> and \<^verbatim>\<open>1\<close>, with
  \<^verbatim>\<open>+\<close> and \<^verbatim>\<open>-\<close>, and with \<^verbatim>\<open>parseInt\<close>, so every Number it can hold is an
  integer that a double represents, an infinity or NaN. \<open>Finite n\<close> is the Number
  whose value is the integer \<open>n\<close>, for an \<open>n\<close> that a double represents. The two
  zeros are one value here: \<^verbatim>\<open>+\<close>, \<^verbatim>\<open>-\<close>, \<^verbatim>\<open>===\<close> and the text on display
  do not tell them apart.
\<close>

datatype number = Finite int | Infinity | MinusInfinity | NaN

subsection \<open>Rounding an integer to a double\<close>

text \<open>
  A double has 53 significant bits. \<open>exponent a\<close> is the number of low bits of \<open>a\<close>
  that do not fit; \<open>roundTiesToEven a\<close> drops them and rounds to the nearest multiple of
  \<open>2 ^ exponent a\<close>, a tie going to the even quotient. \<open>Num x\<close> is the Number for
  the integer \<open>x\<close>, as the standard converts a mathematical value to a Number:
  the rounded value, or an infinity when that reaches \<open>2 ^ 1024\<close>. Up to
  \<open>2 ^ 53\<close> in magnitude it is \<open>Finite x\<close>; \<open>Num (2 ^ 53 + 1)\<close> is
  \<open>Finite (2 ^ 53)\<close>.
\<close>

function exponent :: "nat \<Rightarrow> nat" where
  "exponent a = (if a < 2 ^ 53 then 0 else Suc (exponent (a div 2)))"
  by pat_completeness auto
termination
  by (relation "measure id") auto

declare exponent.simps [simp del]

definition roundTiesToEven :: "nat \<Rightarrow> nat" where
  "roundTiesToEven a =
     (let e = exponent a; q = a div 2 ^ e; r = a mod 2 ^ e
      in (if 2 ^ e < 2 * r \<or> (2 * r = 2 ^ e \<and> odd q) then q + 1 else q) * 2 ^ e)"

definition Num :: "int \<Rightarrow> number" where
  "Num x =
     (let m = roundTiesToEven (nat \<bar>x\<bar>)
      in if 2 ^ 1024 \<le> m then (if x < 0 then MinusInfinity else Infinity)
         else Finite (sgn x * int m))"

text \<open>
  \<^verbatim>\<open>a + b\<close> and \<^verbatim>\<open>a - b\<close> on Numbers: NaN is absorbing, infinities of opposite
  pull give NaN, an infinity absorbs a finite operand, and the sum or difference of two
  integers is rounded to a double.
\<close>

fun js_add :: "number \<Rightarrow> number \<Rightarrow> number" where
  "js_add NaN _ = NaN"
| "js_add _ NaN = NaN"
| "js_add Infinity MinusInfinity = NaN"
| "js_add MinusInfinity Infinity = NaN"
| "js_add Infinity _ = Infinity"
| "js_add _ Infinity = Infinity"
| "js_add MinusInfinity _ = MinusInfinity"
| "js_add _ MinusInfinity = MinusInfinity"
| "js_add (Finite a) (Finite b) = Num (a + b)"

fun js_sub :: "number \<Rightarrow> number \<Rightarrow> number" where
  "js_sub NaN _ = NaN"
| "js_sub _ NaN = NaN"
| "js_sub Infinity Infinity = NaN"
| "js_sub MinusInfinity MinusInfinity = NaN"
| "js_sub Infinity _ = Infinity"
| "js_sub _ Infinity = MinusInfinity"
| "js_sub MinusInfinity _ = MinusInfinity"
| "js_sub _ MinusInfinity = Infinity"
| "js_sub (Finite a) (Finite b) = Num (a - b)"

subsection \<open>Strings and the built-in \<^verbatim>\<open>parseInt\<close>, called with one argument\<close>

text \<open>
  A string of the page is a list of UTF-16 code units; \<open>str\<close> gives the code units of
  an ASCII literal of the source.
\<close>

type_synonym code_unit = nat

definition str :: "string \<Rightarrow> code_unit list" where
  "str s = map of_char s"

text \<open>
  \<^verbatim>\<open>parseInt(string)\<close> as ECMA-262 defines it for an undefined radix: leading white
  space and line terminators are dropped, one sign is read, a prefix \<^verbatim>\<open>0x\<close> or
  \<^verbatim>\<open>0X\<close> selects radix 16 (radix 10 otherwise), and the longest run of digits of that
  radix is the number, converted to a Number. With no digit at that place the result is
  NaN. The white space is TAB, LF, VT, FF, CR, SP, U+00A0, U+1680, U+2000 to U+200A,
  U+2028, U+2029, U+202F, U+205F, U+3000 and U+FEFF. (For more than 20 significant
  decimal digits the standard lets an implementation round the digits before converting;
  the value here is the exact one, as the common engines compute it.)
\<close>

definition isWhiteSpace :: "code_unit \<Rightarrow> bool" where
  "isWhiteSpace c =
     (c \<in> set [0x09, 0x0A, 0x0B, 0x0C, 0x0D, 0x20, 0xA0, 0x1680, 0x2028, 0x2029, 0x202F,
               0x205F, 0x3000, 0xFEFF]
      \<or> (0x2000 \<le> c \<and> c \<le> 0x200A))"

definition digitValue :: "code_unit \<Rightarrow> nat option" where
  "digitValue c =
     (if 48 \<le> c \<and> c \<le> 57 then Some (c - 48)
      else if 97 \<le> c \<and> c \<le> 122 then Some (c - 87)
      else if 65 \<le> c \<and> c \<le> 90 then Some (c - 55)
      else None)"

definition isRadixDigit :: "nat \<Rightarrow> code_unit \<Rightarrow> bool" where
  "isRadixDigit R c = (case digitValue c of None \<Rightarrow> False | Some d \<Rightarrow> d < R)"

definition mathInt :: "nat \<Rightarrow> code_unit list \<Rightarrow> nat" where
  "mathInt R Z =
     foldl (\<lambda>acc c. case digitValue c of None \<Rightarrow> acc | Some d \<Rightarrow> acc * R + d) 0 Z"

definition parseInt :: "code_unit list \<Rightarrow> number" where
  "parseInt inputString =
     (let S = dropWhile isWhiteSpace inputString;
          sign = (case S of [] \<Rightarrow> 1 | c # _ \<Rightarrow> if c = 0x2D then - 1 else (1 :: int));
          S' = (case S of [] \<Rightarrow> S
                | c # cs \<Rightarrow> if c = 0x2B \<or> c = 0x2D then cs else S);
          hex = (take 2 S' = str ''0x'' \<or> take 2 S' = str ''0X'');
          R = (if hex then 16 else 10);
          Z = takeWhile (isRadixDigit R) (if hex then drop 2 S' else S')
      in if Z = [] then NaN else Num (sign * int (mathInt R Z)))"

section \<open>The state hooks of the host framework\<close>

text \<open>
  \<^verbatim>\<open>setCount\<close> takes either the next value or a function of the previous state
  (\<^verbatim>\<open>setCount(count + 1)\<close> against \<^verbatim>\<open>setCount(count => count + 1)\<close>). The framework
  queues what it is given and applies the queue in order, each entry to the result of
  the one before it; a plain value replaces the state, a function is called with it.
  This ordering is what the specification assumes of the host framework; the framework
  itself is not part of the repository.
\<close>

datatype 's setStateAction = Value 's | Updater "'s \<Rightarrow> 's"

fun basicStateReducer :: "'s \<Rightarrow> 's setStateAction \<Rightarrow> 's" where
  "basicStateReducer state (Value v) = v"
| "basicStateReducer state (Updater f) = f state"

text \<open>
  Every counter renders two buttons, \<^verbatim>\<open>decrement-button\<close> and \<^verbatim>\<open>increment-button\<close>.
  A component is its initial state, the function the hook applies to a queued entry
  (\<open>basicStateReducer\<close> for \<^verbatim>\<open>useState\<close>, the given reducer for \<^verbatim>\<open>useReducer\<close>),
  and what a click on a button queues. The click handlers are closures made by a render,
  so \<open>onClick\<close> takes the state that render saw.
\<close>

datatype control = Decrement | Increment

record ('s, 'a) component =
  initial :: 's
  hook_reducer :: "'s \<Rightarrow> 'a \<Rightarrow> 's"
  onClick :: "'s \<Rightarrow> control \<Rightarrow> 'a"

text \<open>
  A mounted instance is the state of its latest render and the entries queued since.
  A click queues the entry its handler, as that render made it, passes to the hook; a
  re-render applies the queue and renders the result.
\<close>

record ('s, 'a) mounted =
  rendered :: 's
  pending :: "'a list"

datatype event = Click control | Rerender

fun step :: "('s, 'a) component \<Rightarrow> ('s, 'a) mounted \<Rightarrow> event \<Rightarrow> ('s, 'a) mounted" where
  "step C i (Click b) = i\<lparr>pending := pending i @ [onClick C (rendered i) b]\<rparr>"
| "step C i Rerender =
     \<lparr>rendered = foldl (hook_reducer C) (rendered i) (pending i), pending = []\<rparr>"

definition settled :: "'s \<Rightarrow> ('s, 'a) mounted" where
  "settled s = \<lparr>rendered = s, pending = []\<rparr>"

definition mount :: "('s, 'a) component \<Rightarrow> ('s, 'a) mounted" where
  "mount C = settled (initial C)"

definition run :: "('s, 'a) component \<Rightarrow> event list \<Rightarrow> ('s, 'a) mounted" where
  "run C evs = foldl (step C) (mount C) evs"

text \<open>The state on display once the framework has re-rendered after the events.\<close>

definition final :: "('s, 'a) component \<Rightarrow> event list \<Rightarrow> 's" where
  "final C evs = rendered (step C (run C evs) Rerender)"

text \<open>One activation of a button of an instance with nothing queued, then the re-render.\<close>

definition activate :: "('s, 'a) component \<Rightarrow> 's \<Rightarrow> control \<Rightarrow> 's" where
  "activate C s b = rendered (foldl (step C) (settled s) [Click b, Rerender])"

section \<open>The five counters\<close>

subsection \<open>BasicCounter\<close>

definition BasicCounter :: "(number, number setStateAction) component" where
  "BasicCounter =
     \<lparr>initial = Num 0,
      hook_reducer = basicStateReducer,
      onClick = (\<lambda>count b. case b of
          Decrement \<Rightarrow> Value (js_sub count (Num 1))
        | Increment \<Rightarrow> Value (js_add count (Num 1)))\<rparr>"

subsection \<open>FunctionalCounter\<close>

definition FunctionalCounter :: "(number, number setStateAction) component" where
  "FunctionalCounter =
     \<lparr>initial = Num 0,
      hook_reducer = basicStateReducer,
      onClick = (\<lambda>_ b. case b of
          Decrement \<Rightarrow> Updater (\<lambda>count. js_sub count (Num 1))
        | Increment \<Rightarrow> Updater (\<lambda>count. js_add count (Num 1)))\<rparr>"

subsection \<open>CallbackCounter\<close>

text \<open>
  \<^verbatim>\<open>useCallback(f, [])\<close> keeps the function of the first render; neither function
  reads a variable of that render.
\<close>

definition decrease :: "number setStateAction" where
  "decrease = Updater (\<lambda>count. js_sub count (Num 1))"

definition increase :: "number setStateAction" where
  "increase = Updater (\<lambda>count. js_add count (Num 1))"

definition CallbackCounter :: "(number, number setStateAction) component" where
  "CallbackCounter =
     \<lparr>initial = Num 0,
      hook_reducer = basicStateReducer,
      onClick = (\<lambda>_ b. case b of Decrement \<Rightarrow> decrease | Increment \<Rightarrow> increase)\<rparr>"

subsection \<open>DataAttributeCounter\<close>

text \<open>
  The handler reads \<^verbatim>\<open>e.currentTarget.dataset.change\<close>: the string of the button's
  \<^verbatim>\<open>data-change\<close> attribute, or undefined (\<open>None\<close>) when the button has none.
  \<^verbatim>\<open>?? '0'\<close> replaces undefined only.
\<close>

definition update :: "code_unit list option \<Rightarrow> number setStateAction" where
  "update dataset_change =
     (let change = parseInt (case dataset_change of None \<Rightarrow> str ''0'' | Some s \<Rightarrow> s)
      in Updater (\<lambda>count. js_add count change))"

definition data_change :: "control \<Rightarrow> code_unit list option" where
  "data_change b =
     (case b of Decrement \<Rightarrow> Some (str ''-1'') | Increment \<Rightarrow> Some (str ''1''))"

definition DataAttributeCounter :: "(number, number setStateAction) component" where
  "DataAttributeCounter =
     \<lparr>initial = Num 0,
      hook_reducer = basicStateReducer,
      onClick = (\<lambda>_ b. update (data_change b))\<rparr>"

subsection \<open>ReducerCounter\<close>

record state =
  count :: number

record action =
  type :: string

definition initialState :: state where
  "initialState = \<lparr>count = Num 0\<rparr>"

definition reducer :: "state \<Rightarrow> action \<Rightarrow> state" where
  "reducer state action =
     (if type action = ''increment'' then \<lparr>count = js_add (count state) (Num 1)\<rparr>
      else if type action = ''decrement'' then \<lparr>count = js_sub (count state) (Num 1)\<rparr>
      else state)"

definition ReducerCounter :: "(state, action) component" where
  "ReducerCounter =
     \<lparr>initial = initialState,
      hook_reducer = reducer,
      onClick = (\<lambda>_ b. case b of
          Decrement \<Rightarrow> \<lparr>type = ''decrement''\<rparr>
        | Increment \<Rightarrow> \<lparr>type = ''increment''\<rparr>)\<rparr>"

subsection \<open>The reducer on objects with identity\<close>

text \<open>
  Whether \<^verbatim>\<open>reducer\<close> changes the object it is given, and which object it returns, is
  a matter of references. Here the store is the list of the objects allocated so far, a
  reference is a position in it, and an object is the list of its properties;
  \<^verbatim>\<open>{ count: e }\<close> allocates a new object at the end of the store and
  \<^verbatim>\<open>return state\<close> returns the reference it was given. Reading a property an object
  does not have gives undefined, which \<^verbatim>\<open>+\<close> and \<^verbatim>\<open>-\<close> convert to NaN.
\<close>

type_synonym ref = nat

type_synonym object = "(string \<times> number) list"

type_synonym heap = "object list"

definition get_prop :: "heap \<Rightarrow> ref \<Rightarrow> string \<Rightarrow> number option" where
  "get_prop h r p = map_of (h ! r) p"

definition toNumber :: "number option \<Rightarrow> number" where
  "toNumber v = (case v of None \<Rightarrow> NaN | Some n \<Rightarrow> n)"

definition alloc :: "heap \<Rightarrow> object \<Rightarrow> heap \<times> ref" where
  "alloc h ob = (h @ [ob], length h)"

definition reducer_obj :: "heap \<Rightarrow> ref \<Rightarrow> action \<Rightarrow> heap \<times> ref" where
  "reducer_obj h state action =
     (if type action = ''increment''
      then alloc h [(''count'', js_add (toNumber (get_prop h state ''count'')) (Num 1))]
      else if type action = ''decrement''
      then alloc h [(''count'', js_sub (toNumber (get_prop h state ''count'')) (Num 1))]
      else (h, state))"

text \<open>The state a reference stands for, as the value-level \<open>reducer\<close> sees it.\<close>

definition state_at :: "heap \<Rightarrow> ref \<Rightarrow> state" where
  "state_at h r = \<lparr>count = toNumber (get_prop h r ''count'')\<rparr>"

section \<open>Rounding: what the conversion to a double keeps\<close>

lemma exponent_small: "a < 2 ^ 53 \<Longrightarrow> exponent a = 0"
  by (subst exponent.simps) simp

lemma exponent_step: "2 ^ 53 \<le> a \<Longrightarrow> exponent a = Suc (exponent (a div 2))"
  by (subst exponent.simps) simp

lemma quotient_range:
  "2 ^ 53 \<le> a \<Longrightarrow> 2 ^ 52 \<le> a div 2 ^ exponent a \<and> a div 2 ^ exponent a < 2 ^ 53"
proof (induction a rule: exponent.induct)
  case (1 a)
  show ?case
  proof (cases "a div 2 < 2 ^ 53")
    case True
    with "1.prems" show ?thesis
      by (simp add: exponent_step exponent_small)
  next
    case False
    then have big: "2 ^ 53 \<le> a div 2" by simp
    from "1.prems" have "\<not> a < 2 ^ 53" by simp
    from "1.IH" [OF this big] show ?thesis
      using "1.prems" by (simp add: exponent_step div_mult2_eq)
  qed
qed

lemma exponent_shift:
  "2 ^ 52 \<le> q \<Longrightarrow> q < 2 ^ 53 \<Longrightarrow> exponent (q * 2 ^ e) = e"
proof (induction e)
  case 0
  then show ?case by (simp add: exponent_small)
next
  case (Suc e)
  have "(2::nat) ^ 53 = 2 ^ 52 * 2" by simp
  also have "\<dots> \<le> q * 2 ^ Suc e"
    using Suc.prems(1) by (intro mult_le_mono) simp_all
  finally have "2 ^ 53 \<le> q * 2 ^ Suc e" .
  then have "exponent (q * 2 ^ Suc e) = Suc (exponent (q * 2 ^ Suc e div 2))"
    by (rule exponent_step)
  also have "q * 2 ^ Suc e div 2 = q * 2 ^ e" by simp
  finally show ?case using Suc by simp
qed

lemma half_less: "a < 2 * k \<Longrightarrow> a div 2 < (k::nat)"
  by arith

lemma exponent_le: "a < 2 ^ 53 * 2 ^ j \<Longrightarrow> exponent a \<le> j"
proof (induction j arbitrary: a)
  case 0
  then show ?case by (simp add: exponent_small)
next
  case (Suc j)
  show ?case
  proof (cases "a < 2 ^ 53")
    case True
    then show ?thesis by (simp add: exponent_small)
  next
    case False
    from Suc.prems have "a < 2 * (2 ^ 53 * 2 ^ j)" by simp
    then have "a div 2 < 2 ^ 53 * 2 ^ j" by (rule half_less)
    from Suc.IH [OF this] False show ?thesis by (simp add: exponent_step)
  qed
qed

lemma round_small: "a \<le> 2 ^ 53 \<Longrightarrow> roundTiesToEven a = a"
proof (cases "a < 2 ^ 53")
  case True
  then show ?thesis by (simp add: roundTiesToEven_def exponent_small)
next
  case False
  assume "a \<le> 2 ^ 53"
  with False have "a = 2 ^ 53" by simp
  then show ?thesis by (simp add: roundTiesToEven_def exponent_step exponent_small)
qed

lemma round_exact_multiple:
  assumes "2 ^ 52 \<le> q" and "q < 2 ^ 53"
  shows "roundTiesToEven (q * 2 ^ e) = q * 2 ^ e"
  using assms by (simp add: roundTiesToEven_def exponent_shift)

lemma round_cases:
  assumes "2 ^ 53 \<le> a"
  obtains q where "2 ^ 52 \<le> q" "q \<le> 2 ^ 53" "roundTiesToEven a = q * 2 ^ exponent a"
proof -
  from quotient_range [OF assms]
  have "2 ^ 52 \<le> a div 2 ^ exponent a" "a div 2 ^ exponent a < 2 ^ 53" by simp_all
  then show thesis
    by (intro that [of "if 2 ^ exponent a < 2 * (a mod 2 ^ exponent a) \<or>
          (2 * (a mod 2 ^ exponent a) = 2 ^ exponent a \<and> odd (a div 2 ^ exponent a))
          then a div 2 ^ exponent a + 1 else a div 2 ^ exponent a"])
       (simp_all add: roundTiesToEven_def Let_def)
qed

lemma round_idem: "roundTiesToEven (roundTiesToEven a) = roundTiesToEven a"
proof (cases "a < 2 ^ 53")
  case True
  then show ?thesis by (simp add: round_small)
next
  case False
  then have "2 ^ 53 \<le> a" by simp
  then obtain q where q: "2 ^ 52 \<le> q" "q \<le> 2 ^ 53"
    and r: "roundTiesToEven a = q * 2 ^ exponent a"
    by (rule round_cases)
  show ?thesis
  proof (cases "q < 2 ^ 53")
    case True
    with q r show ?thesis by (simp add: round_exact_multiple)
  next
    case False
    with q have "q = 2 ^ 53" by simp
    then have "q * 2 ^ exponent a = 2 ^ 52 * 2 ^ Suc (exponent a)" by simp
    moreover have "roundTiesToEven (2 ^ 52 * 2 ^ Suc (exponent a)) = 2 ^ 52 * 2 ^ Suc (exponent a)"
      by (rule round_exact_multiple) simp_all
    ultimately show ?thesis using r by simp
  qed
qed

lemma round_bound: "a < 2 ^ 53 * 2 ^ j \<Longrightarrow> roundTiesToEven a \<le> 2 ^ 53 * 2 ^ j"
proof (cases "a < 2 ^ 53")
  case True
  assume "a < 2 ^ 53 * 2 ^ j"
  with True show ?thesis by (simp add: round_small)
next
  case False
  assume a: "a < 2 ^ 53 * 2 ^ j"
  from False have "2 ^ 53 \<le> a" by simp
  then obtain q where q: "q \<le> 2 ^ 53" and r: "roundTiesToEven a = q * 2 ^ exponent a"
    by (rule round_cases)
  have "q * 2 ^ exponent a \<le> 2 ^ 53 * 2 ^ j"
    using q exponent_le [OF a] by (intro mult_le_mono) simp_all
  with r show ?thesis by simp
qed

lemma Num_exact: "\<bar>x\<bar> \<le> 2 ^ 53 \<Longrightarrow> Num x = Finite x"
proof -
  assume x: "\<bar>x\<bar> \<le> 2 ^ 53"
  then have "nat \<bar>x\<bar> \<le> 2 ^ 53" by simp
  then have r: "roundTiesToEven (nat \<bar>x\<bar>) = nat \<bar>x\<bar>" by (rule round_small)
  have "nat \<bar>x\<bar> < 2 ^ 1024" using x by simp
  moreover have "sgn x * \<bar>x\<bar> = x" by (simp add: mult_sgn_abs)
  ultimately show ?thesis by (simp add: Num_def r)
qed

lemma Num_idem: "Num x = Finite m \<Longrightarrow> Num m = Finite m"
proof -
  assume fin: "Num x = Finite m"
  define M where "M = roundTiesToEven (nat \<bar>x\<bar>)"
  from fin have small: "\<not> 2 ^ 1024 \<le> M" and m: "m = sgn x * int M"
    by (auto simp: Num_def M_def Let_def split: if_splits)
  have "M = 0 \<or> x \<noteq> 0"
    by (cases "x = 0") (simp_all add: M_def round_small)
  then have abs: "nat \<bar>m\<bar> = M" and sg: "sgn m * int M = m"
    using m by (auto simp: abs_mult sgn_mult)
  have "roundTiesToEven M = M" unfolding M_def by (rule round_idem)
  with small abs sg show ?thesis by (simp add: Num_def [of m])
qed

lemma Num_in_range: "\<bar>x\<bar> < 2 ^ 1023 \<Longrightarrow> \<exists>m. Num x = Finite m"
proof -
  assume "\<bar>x\<bar> < 2 ^ 1023"
  then have "nat \<bar>x\<bar> < 2 ^ 53 * 2 ^ 970" by simp
  then have "roundTiesToEven (nat \<bar>x\<bar>) \<le> 2 ^ 53 * 2 ^ 970" by (rule round_bound)
  then have "\<not> 2 ^ 1024 \<le> roundTiesToEven (nat \<bar>x\<bar>)" by simp
  then show ?thesis by (simp add: Num_def)
qed

lemma Num_above: "Num (2 ^ 53 + 1) = Finite (2 ^ 53)"
  by (simp add: Num_def roundTiesToEven_def exponent_step exponent_small)

lemma Num_below: "Num (- (2 ^ 53) - 1) = Finite (- (2 ^ 53))"
  by (simp add: Num_def roundTiesToEven_def exponent_step exponent_small)

lemma add_zero: "js_add (Num n) (Num 0) = Num n"
proof (cases "Num n")
  case (Finite m)
  from Num_idem [OF Finite] Finite show ?thesis by (simp add: Num_exact)
qed (simp_all add: Num_exact)

lemma add_exact: "\<bar>a + b\<bar> \<le> 2 ^ 53 \<Longrightarrow> js_add (Finite a) (Finite b) = Finite (a + b)"
  by (simp add: Num_exact)

lemma sub_exact: "\<bar>a - b\<bar> \<le> 2 ^ 53 \<Longrightarrow> js_sub (Finite a) (Finite b) = Finite (a - b)"
  by (simp add: Num_exact)

section \<open>Evaluating \<open>parseInt\<close> and the shared handler\<close>

lemmas parseInt_unfold =
  parseInt_def str_def isWhiteSpace_def isRadixDigit_def digitValue_def mathInt_def

lemma parseInt_minus_one: "parseInt (str ''-1'') = Finite (- 1)"
  by (simp add: parseInt_unfold Num_exact)

lemma parseInt_one: "parseInt (str ''1'') = Finite 1"
  by (simp add: parseInt_unfold Num_exact)

lemma parseInt_zero: "parseInt (str ''0'') = Num 0"
  by (simp add: parseInt_unfold)

lemma update_absent: "update None = Updater (\<lambda>count. js_add count (Num 0))"
  by (simp add: update_def parseInt_zero)

lemma update_deltas:
  "update (Some (str ''-1'')) = Updater (\<lambda>count. js_add count (Finite (- 1)))"
  "update (Some (str ''1'')) = Updater (\<lambda>count. js_add count (Finite 1))"
  by (simp_all add: update_def parseInt_minus_one parseInt_one)

lemma update_controls:
  "update (data_change Decrement) = Updater (\<lambda>count. js_add count (Finite (- 1)))"
  "update (data_change Increment) = Updater (\<lambda>count. js_add count (Finite 1))"
  by (simp_all add: update_def data_change_def parseInt_minus_one parseInt_one)

text \<open>
  The conversions at their edges: \<^verbatim>\<open>parseInt\<close> rounds a long run of digits to a
  double and skips white space outside ASCII, a tie above \<open>2 ^ 53\<close> goes to the even
  neighbour, and \<open>2 ^ 1024\<close> is out of range.
\<close>

lemma parseInt_rounds: "parseInt (str ''9007199254740993'') = Finite 9007199254740992"
  by (simp add: parseInt_unfold Num_def roundTiesToEven_def exponent_step exponent_small)

lemma parseInt_skips_white_space:
  "parseInt ([0xA0, 0x2028, 0x20] @ str ''42'') = Finite 42"
  by (simp add: parseInt_unfold Num_exact)

lemma parseInt_prefix: "parseInt (str ''12px'') = Finite 12" "parseInt (str ''0x'') = NaN"
  by (simp_all add: parseInt_unfold Num_exact)

lemma add_tie_to_even: "js_add (Finite (2 ^ 53 + 2)) (Num 1) = Finite (2 ^ 53 + 4)"
  by (simp add: Num_exact) (simp add: Num_def roundTiesToEven_def exponent_step exponent_small)

lemma Num_overflow: "Num (2 ^ 1024) = Infinity" "Num (- (2 ^ 1024)) = MinusInfinity"
  using round_exact_multiple [of "2 ^ 52" 972] by (simp_all add: Num_def)

section \<open>Handlers that do not read the rendered state\<close>

text \<open>
  When the entry a click queues does not depend on the render that made the handler,
  re-renders are invisible: the state after any mix of clicks and re-renders is the fold
  of the hook's function over the clicks alone.
\<close>

lemma queue_applied_in_order:
  assumes "\<And>r b. onClick C r b = h b"
  shows "foldl (hook_reducer C) (rendered (foldl (step C) i evs))
           (pending (foldl (step C) i evs)) =
         foldl (\<lambda>s e. case e of Click b \<Rightarrow> hook_reducer C s (h b) | Rerender \<Rightarrow> s)
           (foldl (hook_reducer C) (rendered i) (pending i)) evs"
proof (induction evs arbitrary: i)
  case Nil
  show ?case by simp
next
  case (Cons e evs)
  show ?case
  proof (cases e)
    case (Click b)
    then show ?thesis using Cons.IH [of "step C i e"] by (simp add: assms)
  next
    case Rerender
    then show ?thesis using Cons.IH [of "step C i e"] by simp
  qed
qed

lemma final_as_fold:
  assumes "\<And>r b. onClick C r b = h b"
  shows "final C evs =
         foldl (\<lambda>s e. case e of Click b \<Rightarrow> hook_reducer C s (h b) | Rerender \<Rightarrow> s)
           (initial C) evs"
  using queue_applied_in_order [of C h "mount C" evs, OF assms]
  by (simp add: final_def run_def mount_def settled_def)

text \<open>
  As long as the running difference of increments and decrements stays within
  \<open>2 ^ 53\<close>, every step is exact and the fold counts.
\<close>

lemma offset_fold:
  assumes inc: "\<And>k. \<bar>k + 1\<bar> \<le> 2 ^ 53 \<Longrightarrow> tr (emb k) (h Increment) = emb (k + 1)"
    and dec: "\<And>k. \<bar>k - 1\<bar> \<le> 2 ^ 53 \<Longrightarrow> tr (emb k) (h Decrement) = emb (k - 1)"
  shows "\<forall>j\<le>length evs. \<bar>k + int (count_list (take j evs) (Click Increment))
                           - int (count_list (take j evs) (Click Decrement))\<bar> \<le> 2 ^ 53 \<Longrightarrow>
         foldl (\<lambda>s e. case e of Click b \<Rightarrow> tr s (h b) | Rerender \<Rightarrow> s) (emb k) evs =
         emb (k + int (count_list evs (Click Increment))
                - int (count_list evs (Click Decrement)))"
proof (induction evs arbitrary: k)
  case Nil
  show ?case by simp
next
  case (Cons e evs)
  have first: "\<bar>k + int (count_list [e] (Click Increment))
                 - int (count_list [e] (Click Decrement))\<bar> \<le> 2 ^ 53"
    using Cons.prems [rule_format, of 1] by simp
  have rest: "\<forall>j\<le>length evs.
      \<bar>k + int (count_list [e] (Click Increment)) - int (count_list [e] (Click Decrement))
        + int (count_list (take j evs) (Click Increment))
        - int (count_list (take j evs) (Click Decrement))\<bar> \<le> 2 ^ 53"
  proof (intro allI impI)
    fix j
    assume "j \<le> length evs"
    then show "\<bar>k + int (count_list [e] (Click Increment)) - int (count_list [e] (Click Decrement))
        + int (count_list (take j evs) (Click Increment))
        - int (count_list (take j evs) (Click Decrement))\<bar> \<le> 2 ^ 53"
      using Cons.prems [rule_format, of "Suc j"] by (auto simp: algebra_simps)
  qed
  show ?case
  proof (cases e)
    case Rerender
    with rest show ?thesis using Cons.IH [of k] by simp
  next
    case (Click b)
    show ?thesis
    proof (cases b)
      case Increment
      with Click first have "tr (emb k) (h Increment) = emb (k + 1)" by (intro inc) simp
      moreover from Click Increment rest have "\<forall>j\<le>length evs.
          \<bar>(k + 1) + int (count_list (take j evs) (Click Increment))
            - int (count_list (take j evs) (Click Decrement))\<bar> \<le> 2 ^ 53"
        by simp
      ultimately show ?thesis
        using Click Increment Cons.IH [of "k + 1"] by (simp add: algebra_simps)
    next
      case Decrement
      with Click first have "tr (emb k) (h Decrement) = emb (k - 1)" by (intro dec) simp
      moreover from Click Decrement rest have "\<forall>j\<le>length evs.
          \<bar>(k - 1) + int (count_list (take j evs) (Click Increment))
            - int (count_list (take j evs) (Click Decrement))\<bar> \<le> 2 ^ 53"
        by simp
      ultimately show ?thesis
        using Click Decrement Cons.IH [of "k - 1"] by (simp add: algebra_simps)
    qed
  qed
qed

lemma final_latest_state:
  assumes h: "\<And>r b. onClick C r b = h b"
    and init: "initial C = emb 0"
    and inc: "\<And>k. \<bar>k + 1\<bar> \<le> 2 ^ 53 \<Longrightarrow> hook_reducer C (emb k) (h Increment) = emb (k + 1)"
    and dec: "\<And>k. \<bar>k - 1\<bar> \<le> 2 ^ 53 \<Longrightarrow> hook_reducer C (emb k) (h Decrement) = emb (k - 1)"
    and run: "\<forall>j\<le>length evs. \<bar>int (count_list (take j evs) (Click Increment))
                 - int (count_list (take j evs) (Click Decrement))\<bar> \<le> 2 ^ 53"
  shows "final C evs =
         emb (int (count_list evs (Click Increment)) - int (count_list evs (Click Decrement)))"
proof -
  have "final C evs =
        foldl (\<lambda>s e. case e of Click b \<Rightarrow> hook_reducer C s (h b) | Rerender \<Rightarrow> s)
          (emb 0) evs"
    using final_as_fold [of C h evs, OF h] by (simp add: init)
  also have "\<dots> = emb (0 + int (count_list evs (Click Increment))
                        - int (count_list evs (Click Decrement)))"
  proof -
    from run have "\<forall>j\<le>length evs. \<bar>0 + int (count_list (take j evs) (Click Increment))
        - int (count_list (take j evs) (Click Decrement))\<bar> \<le> 2 ^ 53"
      by simp
    with inc dec show ?thesis by (rule offset_fold)
  qed
  finally show ?thesis by simp
qed

lemma final_FunctionalCounter:
  assumes "\<forall>j\<le>length evs. \<bar>int (count_list (take j evs) (Click Increment))
              - int (count_list (take j evs) (Click Decrement))\<bar> \<le> 2 ^ 53"
  shows "final FunctionalCounter evs =
   Finite (int (count_list evs (Click Increment)) - int (count_list evs (Click Decrement)))"
  by (rule final_latest_state [where h = "onClick FunctionalCounter (Num 0)", OF _ _ _ _ assms])
     (simp_all add: FunctionalCounter_def Num_exact split: control.splits)

lemma final_CallbackCounter:
  assumes "\<forall>j\<le>length evs. \<bar>int (count_list (take j evs) (Click Increment))
              - int (count_list (take j evs) (Click Decrement))\<bar> \<le> 2 ^ 53"
  shows "final CallbackCounter evs =
   Finite (int (count_list evs (Click Increment)) - int (count_list evs (Click Decrement)))"
  by (rule final_latest_state [where h = "onClick CallbackCounter (Num 0)", OF _ _ _ _ assms])
     (simp_all add: CallbackCounter_def increase_def decrease_def Num_exact
        split: control.splits)

lemma final_DataAttributeCounter:
  assumes "\<forall>j\<le>length evs. \<bar>int (count_list (take j evs) (Click Increment))
              - int (count_list (take j evs) (Click Decrement))\<bar> \<le> 2 ^ 53"
  shows "final DataAttributeCounter evs =
   Finite (int (count_list evs (Click Increment)) - int (count_list evs (Click Decrement)))"
  by (rule final_latest_state [where h = "onClick DataAttributeCounter (Num 0)",
        OF _ _ _ _ assms])
     (simp_all add: DataAttributeCounter_def update_controls Num_exact)

lemma final_ReducerCounter:
  assumes "\<forall>j\<le>length evs. \<bar>int (count_list (take j evs) (Click Increment))
              - int (count_list (take j evs) (Click Decrement))\<bar> \<le> 2 ^ 53"
  shows "final ReducerCounter evs =
   \<lparr>count = Finite (int (count_list evs (Click Increment))
                    - int (count_list evs (Click Decrement)))\<rparr>"
  by (rule final_latest_state [where h = "onClick ReducerCounter initialState"
        and emb = "\<lambda>k. \<lparr>count = Finite k\<rparr>", OF _ _ _ _ assms])
     (simp_all add: ReducerCounter_def reducer_def initialState_def Num_exact)

lemma short_run:
  assumes "length evs \<le> 2 ^ 53"
  shows "\<forall>j\<le>length evs. \<bar>int (count_list (take j evs) (Click Increment))
            - int (count_list (take j evs) (Click Decrement))\<bar> \<le> 2 ^ 53"
proof (intro allI impI)
  fix j
  assume "j \<le> length evs"
  have "count_list (take j evs) (Click Increment) \<le> length (take j evs)"
    and "count_list (take j evs) (Click Decrement) \<le> length (take j evs)"
    by (rule count_le_length)+
  moreover have "length (take j evs) \<le> 9007199254740992" using assms by simp
  ultimately have "int (count_list (take j evs) (Click Increment)) \<le> 9007199254740992"
    and "int (count_list (take j evs) (Click Decrement)) \<le> 9007199254740992"
    by linarith+
  then show "\<bar>int (count_list (take j evs) (Click Increment))
            - int (count_list (take j evs) (Click Decrement))\<bar> \<le> 2 ^ 53"
    by simp
qed

section \<open>Counts never leave the integers\<close>

text \<open>
  A step of one from an integer of magnitude at most \<open>2 ^ 53\<close> gives such an integer
  again: at the two ends the sum is rounded back to the end.
\<close>

lemma add_one_stays:
  "\<bar>k\<bar> \<le> 2 ^ 53 \<Longrightarrow> \<exists>k'. js_add (Finite k) (Num 1) = Finite k' \<and> \<bar>k'\<bar> \<le> 2 ^ 53"
proof (cases "k = 2 ^ 53")
  case True
  then show ?thesis using Num_above by (simp add: Num_exact)
next
  case False
  assume "\<bar>k\<bar> \<le> 2 ^ 53"
  with False have "\<bar>k + 1\<bar> \<le> 2 ^ 53" by simp
  then show ?thesis by (simp add: Num_exact)
qed

lemma sub_one_stays:
  "\<bar>k\<bar> \<le> 2 ^ 53 \<Longrightarrow> \<exists>k'. js_sub (Finite k) (Num 1) = Finite k' \<and> \<bar>k'\<bar> \<le> 2 ^ 53"
proof (cases "k = - (2 ^ 53)")
  case True
  then show ?thesis using Num_below by (simp add: Num_exact)
next
  case False
  assume "\<bar>k\<bar> \<le> 2 ^ 53"
  with False have "\<bar>k - 1\<bar> \<le> 2 ^ 53" by simp
  then show ?thesis by (simp add: Num_exact)
qed

lemma add_minus_one_stays:
  "\<bar>k\<bar> \<le> 2 ^ 53 \<Longrightarrow> \<exists>k'. js_add (Finite k) (Finite (- 1)) = Finite k' \<and> \<bar>k'\<bar> \<le> 2 ^ 53"
proof (cases "k = - (2 ^ 53)")
  case True
  then show ?thesis using Num_below by simp
next
  case False
  assume "\<bar>k\<bar> \<le> 2 ^ 53"
  with False have "\<bar>k - 1\<bar> \<le> 2 ^ 53" by simp
  then show ?thesis by (simp add: Num_exact)
qed

lemma fold_invariant:
  assumes "P s" and "\<And>s e. P s \<Longrightarrow> P (g s e)"
  shows "P (foldl g s evs)"
  using assms(1) by (induction evs arbitrary: s) (simp_all add: assms(2))

lemma final_invariant:
  assumes h: "\<And>r b. onClick C r b = h b"
    and init: "P (initial C)"
    and pres: "\<And>s b. P s \<Longrightarrow> P (hook_reducer C s (h b))"
  shows "P (final C evs)"
proof -
  have "P (foldl (\<lambda>s e. case e of Click b \<Rightarrow> hook_reducer C s (h b) | Rerender \<Rightarrow> s)
          (initial C) evs)"
    by (rule fold_invariant [where P = P, OF init]) (simp add: pres split: event.splits)
  then show ?thesis by (simp add: final_as_fold [of C h evs, OF h])
qed

lemma final_FunctionalCounter_integer:
  "\<exists>n. final FunctionalCounter evs = Finite n \<and> \<bar>n\<bar> \<le> 2 ^ 53"
proof (rule final_invariant [where h = "onClick FunctionalCounter (Num 0)"])
  show "onClick FunctionalCounter r b = onClick FunctionalCounter (Num 0) b" for r b
    by (simp add: FunctionalCounter_def)
  show "\<exists>n. initial FunctionalCounter = Finite n \<and> \<bar>n\<bar> \<le> 2 ^ 53"
    by (simp add: FunctionalCounter_def Num_exact)
  show "\<exists>n. hook_reducer FunctionalCounter s (onClick FunctionalCounter (Num 0) b) = Finite n
          \<and> \<bar>n\<bar> \<le> 2 ^ 53"
    if "\<exists>n. s = Finite n \<and> \<bar>n\<bar> \<le> 2 ^ 53" for s b
    using that add_one_stays sub_one_stays
    by (cases b) (auto simp: FunctionalCounter_def)
qed

lemma final_CallbackCounter_integer:
  "\<exists>n. final CallbackCounter evs = Finite n \<and> \<bar>n\<bar> \<le> 2 ^ 53"
proof (rule final_invariant [where h = "onClick CallbackCounter (Num 0)"])
  show "onClick CallbackCounter r b = onClick CallbackCounter (Num 0) b" for r b
    by (simp add: CallbackCounter_def)
  show "\<exists>n. initial CallbackCounter = Finite n \<and> \<bar>n\<bar> \<le> 2 ^ 53"
    by (simp add: CallbackCounter_def Num_exact)
  show "\<exists>n. hook_reducer CallbackCounter s (onClick CallbackCounter (Num 0) b) = Finite n
          \<and> \<bar>n\<bar> \<le> 2 ^ 53"
    if "\<exists>n. s = Finite n \<and> \<bar>n\<bar> \<le> 2 ^ 53" for s b
    using that add_one_stays sub_one_stays
    by (cases b) (auto simp: CallbackCounter_def increase_def decrease_def)
qed

lemma final_DataAttributeCounter_integer:
  "\<exists>n. final DataAttributeCounter evs = Finite n \<and> \<bar>n\<bar> \<le> 2 ^ 53"
proof (rule final_invariant [where h = "onClick DataAttributeCounter (Num 0)"])
  show "onClick DataAttributeCounter r b = onClick DataAttributeCounter (Num 0) b" for r b
    by (simp add: DataAttributeCounter_def)
  show "\<exists>n. initial DataAttributeCounter = Finite n \<and> \<bar>n\<bar> \<le> 2 ^ 53"
    by (simp add: DataAttributeCounter_def Num_exact)
  show "\<exists>n. hook_reducer DataAttributeCounter s (onClick DataAttributeCounter (Num 0) b)
            = Finite n \<and> \<bar>n\<bar> \<le> 2 ^ 53"
    if "\<exists>n. s = Finite n \<and> \<bar>n\<bar> \<le> 2 ^ 53" for s b
  proof -
    from that obtain k where k: "s = Finite k" "\<bar>k\<bar> \<le> 2 ^ 53" by blast
    have "js_add (Finite k) (Finite 1) = js_add (Finite k) (Num 1)" by (simp add: Num_exact)
    with add_one_stays [OF k(2)] add_minus_one_stays [OF k(2)] k(1) show ?thesis
      by (cases b) (simp_all add: DataAttributeCounter_def update_controls)
  qed
qed

lemma final_ReducerCounter_integer:
  "\<exists>n. final ReducerCounter evs = \<lparr>count = Finite n\<rparr> \<and> \<bar>n\<bar> \<le> 2 ^ 53"
proof (rule final_invariant [where h = "onClick ReducerCounter initialState"])
  show "onClick ReducerCounter r b = onClick ReducerCounter initialState b" for r b
    by (simp add: ReducerCounter_def)
  show "\<exists>n. initial ReducerCounter = \<lparr>count = Finite n\<rparr> \<and> \<bar>n\<bar> \<le> 2 ^ 53"
    by (simp add: ReducerCounter_def initialState_def Num_exact)
  show "\<exists>n. hook_reducer ReducerCounter s (onClick ReducerCounter initialState b)
            = \<lparr>count = Finite n\<rparr> \<and> \<bar>n\<bar> \<le> 2 ^ 53"
    if "\<exists>n. s = \<lparr>count = Finite n\<rparr> \<and> \<bar>n\<bar> \<le> 2 ^ 53" for s b
  proof -
    from that obtain k where k: "s = \<lparr>count = Finite k\<rparr>" "\<bar>k\<bar> \<le> 2 ^ 53" by blast
    with add_one_stays [OF k(2)] sub_one_stays [OF k(2)] show ?thesis
      by (cases b) (simp_all add: ReducerCounter_def reducer_def)
  qed
qed

text \<open>
  BasicCounter queues values, not functions. Every queued value is an integer computed
  from a rendered integer, so whatever the queue holds, applying it leaves an integer.
\<close>

lemma value_queue_integer:
  assumes "\<forall>u\<in>set q. \<exists>m. u = Value (Finite m) \<and> \<bar>m\<bar> \<le> 2 ^ 53" and "\<bar>n\<bar> \<le> 2 ^ 53"
  shows "\<exists>m. foldl basicStateReducer (Finite n) q = Finite m \<and> \<bar>m\<bar> \<le> 2 ^ 53"
  using assms
proof (induction q arbitrary: n)
  case Nil
  then show ?case by simp
next
  case (Cons u q)
  then obtain m where u: "u = Value (Finite m)" "\<bar>m\<bar> \<le> 2 ^ 53" by auto
  from Cons.prems have "\<forall>u\<in>set q. \<exists>m. u = Value (Finite m) \<and> \<bar>m\<bar> \<le> 2 ^ 53" by simp
  from Cons.IH [OF this u(2)] u(1) show ?case by simp
qed

lemma BasicCounter_step_integer:
  assumes "\<exists>n. rendered i = Finite n \<and> \<bar>n\<bar> \<le> 2 ^ 53"
    and "\<forall>u\<in>set (pending i). \<exists>m. u = Value (Finite m) \<and> \<bar>m\<bar> \<le> 2 ^ 53"
  shows "(\<exists>n. rendered (step BasicCounter i e) = Finite n \<and> \<bar>n\<bar> \<le> 2 ^ 53) \<and>
         (\<forall>u\<in>set (pending (step BasicCounter i e)).
            \<exists>m. u = Value (Finite m) \<and> \<bar>m\<bar> \<le> 2 ^ 53)"
proof -
  from assms(1) obtain n where n: "rendered i = Finite n" "\<bar>n\<bar> \<le> 2 ^ 53" by blast
  show ?thesis
  proof (cases e)
    case (Click b)
    with n assms add_one_stays [OF n(2)] sub_one_stays [OF n(2)] show ?thesis
      by (cases b) (auto simp: BasicCounter_def)
  next
    case Rerender
    with value_queue_integer [OF assms(2) n(2)] n show ?thesis
      by (simp add: BasicCounter_def)
  qed
qed

lemma BasicCounter_run_integer:
  assumes "\<exists>n. rendered i = Finite n \<and> \<bar>n\<bar> \<le> 2 ^ 53"
    and "\<forall>u\<in>set (pending i). \<exists>m. u = Value (Finite m) \<and> \<bar>m\<bar> \<le> 2 ^ 53"
  shows "(\<exists>n. rendered (foldl (step BasicCounter) i evs) = Finite n \<and> \<bar>n\<bar> \<le> 2 ^ 53) \<and>
         (\<forall>u\<in>set (pending (foldl (step BasicCounter) i evs)).
            \<exists>m. u = Value (Finite m) \<and> \<bar>m\<bar> \<le> 2 ^ 53)"
  using assms
proof (induction evs arbitrary: i)
  case Nil
  then show ?case by simp
next
  case (Cons e evs)
  from BasicCounter_step_integer [OF Cons.prems, of e]
  have "\<exists>n. rendered (step BasicCounter i e) = Finite n \<and> \<bar>n\<bar> \<le> 2 ^ 53"
    and "\<forall>u\<in>set (pending (step BasicCounter i e)).
           \<exists>m. u = Value (Finite m) \<and> \<bar>m\<bar> \<le> 2 ^ 53"
    by blast+
  from Cons.IH [OF this] show ?case by simp
qed

lemma final_BasicCounter_integer:
  "\<exists>n. final BasicCounter evs = Finite n \<and> \<bar>n\<bar> \<le> 2 ^ 53"
proof -
  have "(\<exists>n. rendered (foldl (step BasicCounter) (mount BasicCounter) (evs @ [Rerender]))
           = Finite n \<and> \<bar>n\<bar> \<le> 2 ^ 53) \<and>
        (\<forall>u\<in>set (pending (foldl (step BasicCounter) (mount BasicCounter) (evs @ [Rerender]))).
           \<exists>m. u = Value (Finite m) \<and> \<bar>m\<bar> \<le> 2 ^ 53)"
    by (rule BasicCounter_run_integer)
       (simp_all add: mount_def settled_def BasicCounter_def Num_exact)
  then show ?thesis by (simp add: final_def run_def)
qed

section \<open>Counting past \<open>2 ^ 53\<close>\<close>

lemma count_replicate: "count_list (replicate n x) y = (if x = y then n else 0)"
  by (induction n) auto

lemma increments_exact:
  assumes g: "\<And>s. g s (Click Increment) = js_add s (Num 1)"
  shows "- (2 ^ 53) \<le> k \<Longrightarrow> k + int j \<le> 2 ^ 53 \<Longrightarrow>
         foldl g (Finite k) (replicate j (Click Increment)) = Finite (k + int j)"
proof (induction j arbitrary: k)
  case 0
  show ?case by simp
next
  case (Suc j)
  from Suc.prems have "\<bar>k + 1\<bar> \<le> 2 ^ 53" by simp
  then have "js_add (Finite k) (Num 1) = Finite (k + 1)" by (simp add: Num_exact)
  moreover from Suc.prems have "- (2 ^ 53) \<le> k + 1" "k + 1 + int j \<le> 2 ^ 53" by simp_all
  ultimately show ?case using Suc.IH [of "k + 1"] by (simp add: g algebra_simps)
qed

lemma one_increment_too_many:
  assumes "int K = 2 ^ 53"
  shows "final FunctionalCounter (replicate (Suc K) (Click Increment)) = Finite (2 ^ 53)"
proof -
  let ?g = "\<lambda>s e. case e of
      Click b \<Rightarrow> hook_reducer FunctionalCounter s (onClick FunctionalCounter (Num 0) b)
    | Rerender \<Rightarrow> s"
  have g: "?g s (Click Increment) = js_add s (Num 1)" for s
    by (simp add: FunctionalCounter_def)
  have init: "initial FunctionalCounter = Finite 0"
    by (simp add: FunctionalCounter_def Num_exact)
  have rep: "replicate (Suc K) (Click Increment) = replicate K (Click Increment) @ [Click Increment]"
    by (simp add: replicate_append_same)
  have "final FunctionalCounter (replicate (Suc K) (Click Increment)) =
        foldl ?g (initial FunctionalCounter) (replicate (Suc K) (Click Increment))"
    by (rule final_as_fold) (simp add: FunctionalCounter_def)
  also have "\<dots> = foldl ?g (initial FunctionalCounter)
      (replicate K (Click Increment) @ [Click Increment])"
    by (simp only: rep)
  also have "\<dots>
      = ?g (foldl ?g (Finite 0) (replicate K (Click Increment))) (Click Increment)"
    by (simp only: init foldl_append foldl.simps)
  also have "\<dots> = js_add (foldl ?g (Finite 0) (replicate K (Click Increment))) (Num 1)"
    by (rule g)
  also have "foldl ?g (Finite 0) (replicate K (Click Increment)) = Finite (0 + int K)"
    by (rule increments_exact [of ?g, OF g]) (simp_all add: assms)
  also have "js_add (Finite (0 + int K)) (Num 1) = Finite (2 ^ 53)"
    using Num_above by (simp add: assms Num_exact)
  finally show ?thesis .
qed

section \<open>One activation, and the two readings of the reducer\<close>

lemma activate_eq: "activate C s b = hook_reducer C s (onClick C s b)"
  by (simp add: activate_def settled_def)

text \<open>
  The reducer on the store computes the state the value-level reducer computes.
\<close>

lemma reducer_obj_refines:
  "reducer_obj h state action = (h', r) \<Longrightarrow> state < length h \<Longrightarrow>
   state_at h' r = reducer (state_at h state) action"
  by (auto simp: reducer_obj_def reducer_def alloc_def state_at_def get_prop_def toNumber_def
      nth_append split: if_splits)

section \<open>The claims of the specification\<close>

text \<open>
  C1 as stated does not hold for every number of activations. A count is a double:
  after \<open>2 ^ 53\<close> increments FunctionalCounter shows \<open>2 ^ 53\<close>, and one more
  increment leaves it there, while the number of increments minus the number of
  decrements is \<open>2 ^ 53 + 1\<close>.
\<close>

theorem counting_past_2_53_counterexample:
  "final FunctionalCounter (replicate (Suc (2 ^ 53)) (Click Increment)) = Finite (2 ^ 53) \<and>
   int (count_list (replicate (Suc (2 ^ 53)) (Click Increment)) (Click Increment))
     - int (count_list (replicate (Suc (2 ^ 53)) (Click Increment)) (Click Decrement))
     = 2 ^ 53 + 1"
proof -
  have a: "final FunctionalCounter (replicate (Suc (2 ^ 53)) (Click Increment)) = Finite (2 ^ 53)"
    by (rule one_increment_too_many) simp
  have b: "int (count_list (replicate (Suc (2 ^ 53)) (Click Increment)) (Click Increment))
     - int (count_list (replicate (Suc (2 ^ 53)) (Click Increment)) (Click Decrement))
     = 2 ^ 53 + 1"
    unfolding count_replicate by simp
  from a b show ?thesis by (rule conjI)
qed

text \<open>
  C1, amended. FunctionalCounter, CallbackCounter, DataAttributeCounter (through its
  two buttons) and ReducerCounter start at 0, and after any sequence of increment and
  decrement activations, with re-renders anywhere between them or none at all, the
  count on display is the number of increment activations minus the number of decrement
  activations, provided that this difference never exceeded \<open>2 ^ 53\<close> in magnitude
  on the way (which is so, in particular, for at most \<open>2 ^ 53\<close> activations).
\<close>

theorem latest_state_counters_count_activations:
  "\<forall>j\<le>length evs. \<bar>int (count_list (take j evs) (Click Increment))
       - int (count_list (take j evs) (Click Decrement))\<bar> \<le> 2 ^ 53 \<Longrightarrow>
   final FunctionalCounter evs =
     Finite (int (count_list evs (Click Increment)) - int (count_list evs (Click Decrement))) \<and>
   final CallbackCounter evs =
     Finite (int (count_list evs (Click Increment)) - int (count_list evs (Click Decrement))) \<and>
   final DataAttributeCounter evs =
     Finite (int (count_list evs (Click Increment)) - int (count_list evs (Click Decrement))) \<and>
   final ReducerCounter evs =
     \<lparr>count = Finite (int (count_list evs (Click Increment))
                      - int (count_list evs (Click Decrement)))\<rparr>"
  using final_FunctionalCounter [of evs] final_CallbackCounter [of evs]
    final_DataAttributeCounter [of evs] final_ReducerCounter [of evs]
  by simp

theorem latest_state_counters_count_activations_witness:
  "final FunctionalCounter
     [Click Increment, Click Decrement, Click Increment, Rerender, Click Increment] = Finite 2 \<and>
   final CallbackCounter
     [Click Increment, Click Decrement, Click Increment, Rerender, Click Increment] = Finite 2 \<and>
   final DataAttributeCounter
     [Click Increment, Click Decrement, Click Increment, Rerender, Click Increment] = Finite 2 \<and>
   final ReducerCounter
     [Click Increment, Click Decrement, Click Increment, Rerender, Click Increment]
     = \<lparr>count = Finite 2\<rparr>"
proof -
  let ?evs = "[Click Increment, Click Decrement, Click Increment, Rerender, Click Increment]"
  have "\<forall>j\<le>length ?evs. \<bar>int (count_list (take j ?evs) (Click Increment))
       - int (count_list (take j ?evs) (Click Decrement))\<bar> \<le> 2 ^ 53"
    by (rule short_run) simp
  from latest_state_counters_count_activations [OF this] show ?thesis by simp
qed

text \<open>
  C2 as stated does not hold for every captured count: with \<open>2 ^ 53\<close> on display, the
  two increments of one render both queue \<open>2 ^ 53 + 1\<close>, which as a double is
  \<open>2 ^ 53\<close>, and the count does not move at all.
\<close>

theorem BasicCounter_stale_closure_counterexample:
  "rendered (foldl (step BasicCounter) (settled (Finite (2 ^ 53)))
      [Click Increment, Click Increment, Rerender]) = Finite (2 ^ 53)"
  using Num_above by (simp add: BasicCounter_def settled_def Num_exact)

text \<open>
  C2, amended. In BasicCounter two increment activations made by the handler of one
  render, with no re-render between them, both queue the value that render saw plus
  one: for a captured count \<open>c\<close> with \<open>- 2 ^ 53 \<le> c < 2 ^ 53\<close>, whatever the state
  was, applying the two entries gives \<open>c + 1\<close>, and an instance showing \<open>c\<close> shows
  \<open>c + 1\<close>, not \<open>c + 2\<close>, after the two clicks and the re-render.
\<close>

theorem BasicCounter_stale_closure:
  "- (2 ^ 53) \<le> c \<Longrightarrow> c < 2 ^ 53 \<Longrightarrow>
   foldl (hook_reducer BasicCounter) s
     [onClick BasicCounter (Finite c) Increment, onClick BasicCounter (Finite c) Increment]
     = Finite (c + 1) \<and>
   rendered (foldl (step BasicCounter) (settled (Finite c))
      [Click Increment, Click Increment, Rerender]) = Finite (c + 1) \<and>
   rendered (foldl (step BasicCounter) (settled (Finite c))
      [Click Increment, Click Increment, Rerender]) \<noteq> Finite (c + 2)"
  by (simp add: BasicCounter_def settled_def Num_exact)

theorem BasicCounter_stale_closure_witness:
  "- (2 ^ 53) \<le> (5 :: int) \<and> (5 :: int) < 2 ^ 53 \<and>
   foldl (hook_reducer BasicCounter) (Finite 5)
     [onClick BasicCounter (Finite 5) Increment, onClick BasicCounter (Finite 5) Increment]
     = Finite 6 \<and>
   rendered (foldl (step BasicCounter) (settled (Finite 5))
      [Click Increment, Click Increment, Rerender]) = Finite 6"
  using BasicCounter_stale_closure [of 5 "Finite 5"] by simp

text \<open>
  C3 as stated does not hold of the handler. A \<^verbatim>\<open>data-change\<close> attribute that is
  present reaches \<^verbatim>\<open>parseInt\<close> as it is; for \<^verbatim>\<open>"abc"\<close> the result is NaN, and a
  count of 5 does not stay 5.
\<close>

theorem update_unparseable_delta_counterexample:
  "parseInt (str ''abc'') = NaN \<and>
   basicStateReducer (Num 5) (update (Some (str ''abc''))) \<noteq> Num 5"
  by (simp add: update_def parseInt_unfold Num_exact)

text \<open>
  C3, amended. For every activation of DataAttributeCounter whose triggering control has
  no delta attribute, the handler applies a delta of 0 to the latest state, so count is
  unchanged after the update. (Every integer or infinite Number is \<open>Num n\<close> for some
  integer \<open>n\<close>.)
\<close>

theorem update_absent_delta:
  "update None = Updater (\<lambda>count. js_add count (Num 0)) \<and>
   basicStateReducer (Num n) (update None) = Num n"
  by (simp add: update_absent add_zero)

text \<open>
  C4. For every state and every action whose discriminant is neither
  \<^verbatim>\<open>'increment'\<close> nor \<^verbatim>\<open>'decrement'\<close>, the reducer returns the state it was given.
  The reducer has no \<^verbatim>\<open>throw\<close>, and its \<^verbatim>\<open>default\<close> branch reads nothing of the
  state, so there is no error result to model: it is a total function.
\<close>

theorem reducer_unknown_action:
  "type action \<noteq> ''increment'' \<Longrightarrow> type action \<noteq> ''decrement'' \<Longrightarrow>
   reducer state action = state"
  by (simp add: reducer_def)

theorem reducer_unknown_action_witness:
  "type \<lparr>type = ''reset''\<rparr> \<noteq> ''increment'' \<and> type \<lparr>type = ''reset''\<rparr> \<noteq> ''decrement'' \<and>
   reducer \<lparr>count = Num 7\<rparr> \<lparr>type = ''reset''\<rparr> = \<lparr>count = Num 7\<rparr>"
  using reducer_unknown_action [of "\<lparr>type = ''reset''\<rparr>" "\<lparr>count = Num 7\<rparr>"]
  by simp

text \<open>
  C5 as stated does not hold at every count: the reducer computes
  \<^verbatim>\<open>state.count + 1\<close> in doubles, and for the count \<open>2 ^ 53\<close> the result of
  \<^verbatim>\<open>'increment'\<close> is \<open>2 ^ 53\<close> again, not \<open>2 ^ 53 + 1\<close>.
\<close>

theorem reducer_increment_at_2_53_counterexample:
  "reducer \<lparr>count = Finite (2 ^ 53)\<rparr> \<lparr>type = ''increment''\<rparr> = \<lparr>count = Finite (2 ^ 53)\<rparr>"
  using Num_above by (simp add: reducer_def Num_exact)

text \<open>
  C5, amended. The reducer maps count to count + 1 on \<^verbatim>\<open>'increment'\<close> for every
  count from \<open>- 2 ^ 53\<close> up to but not including \<open>2 ^ 53\<close>, and to count - 1 on
  \<^verbatim>\<open>'decrement'\<close> for every count above \<open>- 2 ^ 53\<close> up to \<open>2 ^ 53\<close>;
  ReducerCounter starts from \<open>initialState\<close>, which is \<^verbatim>\<open>{ count: 0 }\<close>; its
  buttons dispatch these two actions; and two increment activations after mounting give
  count 2.
\<close>

theorem reducer_transition_table:
  "(- (2 ^ 53) \<le> n \<and> n < 2 ^ 53 \<longrightarrow>
      reducer \<lparr>count = Finite n\<rparr> \<lparr>type = ''increment''\<rparr> = \<lparr>count = Finite (n + 1)\<rparr>) \<and>
   (- (2 ^ 53) < n \<and> n \<le> 2 ^ 53 \<longrightarrow>
      reducer \<lparr>count = Finite n\<rparr> \<lparr>type = ''decrement''\<rparr> = \<lparr>count = Finite (n - 1)\<rparr>) \<and>
   initial ReducerCounter = initialState \<and> initialState = \<lparr>count = Finite 0\<rparr> \<and>
   onClick ReducerCounter s Increment = \<lparr>type = ''increment''\<rparr> \<and>
   onClick ReducerCounter s Decrement = \<lparr>type = ''decrement''\<rparr> \<and>
   final ReducerCounter [Click Increment, Click Increment] = \<lparr>count = Finite 2\<rparr>"
  by (auto simp add: reducer_def ReducerCounter_def initialState_def final_def run_def
      mount_def settled_def Num_exact)

theorem reducer_transition_table_witness:
  "- (2 ^ 53) < (5 :: int) \<and> (5 :: int) < 2 ^ 53 \<and>
   reducer \<lparr>count = Finite 5\<rparr> \<lparr>type = ''increment''\<rparr> = \<lparr>count = Finite 6\<rparr> \<and>
   reducer \<lparr>count = Finite 5\<rparr> \<lparr>type = ''decrement''\<rparr> = \<lparr>count = Finite 4\<rparr>"
  using reducer_transition_table [of 5 initialState] by (simp add: reducer_def Num_exact)

text \<open>
  C6 as stated does not hold: the update handler of the data-attribute variant does not
  put a zero in the place of a non-numeric delta. With the attribute \<^verbatim>\<open>"x"\<close> an
  integer count becomes NaN.
\<close>

theorem update_non_numeric_delta_counterexample:
  "basicStateReducer (Num 0) (update (Some (str ''x''))) = NaN"
  by (simp add: update_def parseInt_unfold Num_exact)

text \<open>
  C6, amended. In every variant, after every sequence of activations of its two buttons
  (and re-renders), count is an integer, never NaN or undefined. The data-attribute
  variant puts a zero delta in the place of a missing delta attribute, and of nothing
  else, which leaves every count as it was. Its update handler takes an integer count
  \<open>n\<close> to the double nearest to \<open>n + d\<close> whenever the delta attribute is missing
  (\<open>d = 0\<close>) or \<^verbatim>\<open>parseInt\<close> reads the integer \<open>d\<close> from it, and that is an
  integer as long as \<open>n + d\<close> is within the range of a double (below \<open>2 ^ 1023\<close> in
  magnitude).
\<close>

theorem count_is_integer:
  "(\<exists>n. final BasicCounter evs = Finite n \<and> \<bar>n\<bar> \<le> 2 ^ 53) \<and>
   (\<exists>n. final FunctionalCounter evs = Finite n \<and> \<bar>n\<bar> \<le> 2 ^ 53) \<and>
   (\<exists>n. final CallbackCounter evs = Finite n \<and> \<bar>n\<bar> \<le> 2 ^ 53) \<and>
   (\<exists>n. final DataAttributeCounter evs = Finite n \<and> \<bar>n\<bar> \<le> 2 ^ 53) \<and>
   (\<exists>n. final ReducerCounter evs = \<lparr>count = Finite n\<rparr> \<and> \<bar>n\<bar> \<le> 2 ^ 53) \<and>
   update None = Updater (\<lambda>count. js_add count (Num 0)) \<and>
   basicStateReducer (Num k) (update None) = Num k \<and>
   (parseInt (case dc of None \<Rightarrow> str ''0'' | Some s \<Rightarrow> s) = Finite d \<longrightarrow>
      basicStateReducer (Finite n) (update dc) = Num (n + d)) \<and>
   (parseInt (case dc of None \<Rightarrow> str ''0'' | Some s \<Rightarrow> s) = Finite d \<and> \<bar>n + d\<bar> < 2 ^ 1023 \<longrightarrow>
      (\<exists>m. basicStateReducer (Finite n) (update dc) = Finite m))"
proof -
  have "\<exists>m. Num (n + d) = Finite m" if "\<bar>n + d\<bar> < 2 ^ 1023"
    using that by (rule Num_in_range)
  then have handler:
    "(parseInt (case dc of None \<Rightarrow> str ''0'' | Some s \<Rightarrow> s) = Finite d \<longrightarrow>
        basicStateReducer (Finite n) (update dc) = Num (n + d)) \<and>
     (parseInt (case dc of None \<Rightarrow> str ''0'' | Some s \<Rightarrow> s) = Finite d \<and> \<bar>n + d\<bar> < 2 ^ 1023 \<longrightarrow>
        (\<exists>m. basicStateReducer (Finite n) (update dc) = Finite m))"
    by (simp add: update_def)
  have absent: "update None = Updater (\<lambda>count. js_add count (Num 0)) \<and>
      basicStateReducer (Num k) (update None) = Num k"
    by (simp add: update_absent add_zero)
  from final_BasicCounter_integer [of evs] final_FunctionalCounter_integer [of evs]
    final_CallbackCounter_integer [of evs] final_DataAttributeCounter_integer [of evs]
    final_ReducerCounter_integer [of evs] absent handler
  show ?thesis by blast
qed

theorem count_is_integer_witness:
  "parseInt (str ''12px'') = Finite 12 \<and> \<bar>(5 :: int) + 12\<bar> < 2 ^ 1023 \<and>
   basicStateReducer (Finite 5) (update (Some (str ''12px''))) = Finite 17"
  using count_is_integer [where dc = "Some (str ''12px'')" and d = 12 and n = 5]
  by (simp add: parseInt_unfold Num_exact)

text \<open>
  C7. CallbackCounter and FunctionalCounter queue the same updater for the same button,
  whatever render made the handler, so for every current count the two increment
  updaters give the same next count, and so do the two decrement updaters. Both use the
  same hook and start from the same count.
\<close>

theorem CallbackCounter_same_transitions:
  "onClick CallbackCounter r b = onClick FunctionalCounter r' b \<and>
   basicStateReducer c (onClick CallbackCounter r b) =
     basicStateReducer c (onClick FunctionalCounter r' b) \<and>
   hook_reducer CallbackCounter = hook_reducer FunctionalCounter \<and>
   initial CallbackCounter = initial FunctionalCounter"
  by (cases b) (simp_all add: CallbackCounter_def FunctionalCounter_def increase_def decrease_def)

text \<open>
  C8 as stated does not hold at every count: the shared handler adds the delta in
  doubles, and applied to the latest count \<open>2 ^ 53\<close> the increment button leaves
  \<open>2 ^ 53\<close>, not \<open>2 ^ 53 + 1\<close>.
\<close>

theorem shared_handler_at_2_53_counterexample:
  "basicStateReducer (Finite (2 ^ 53)) (onClick DataAttributeCounter (Finite 0) Increment)
   = Finite (2 ^ 53)"
  using Num_above by (simp add: DataAttributeCounter_def update_controls)

text \<open>
  C8, amended. In DataAttributeCounter the decrement button carries the delta
  \<^verbatim>\<open>"-1"\<close> and the increment button \<^verbatim>\<open>"1"\<close>; both go through the one handler,
  which queues a function adding the parsed delta to the latest count. The sum is
  count - 1 for every latest count above \<open>- 2 ^ 53\<close> up to \<open>2 ^ 53\<close>, and count + 1
  for every latest count from \<open>- 2 ^ 53\<close> up to but not including \<open>2 ^ 53\<close>. One
  decrement activation after mounting gives count -1.
\<close>

theorem DataAttributeCounter_deltas:
  "data_change Decrement = Some (str ''-1'') \<and> data_change Increment = Some (str ''1'') \<and>
   onClick DataAttributeCounter r b = update (data_change b) \<and>
   update (data_change Decrement) = Updater (\<lambda>count. js_add count (Num (- 1))) \<and>
   update (data_change Increment) = Updater (\<lambda>count. js_add count (Num 1)) \<and>
   (- (2 ^ 53) < n \<and> n \<le> 2 ^ 53 \<longrightarrow>
      basicStateReducer (Finite n) (onClick DataAttributeCounter r Decrement) = Finite (n - 1)) \<and>
   (- (2 ^ 53) \<le> n \<and> n < 2 ^ 53 \<longrightarrow>
      basicStateReducer (Finite n) (onClick DataAttributeCounter r Increment) = Finite (n + 1)) \<and>
   final DataAttributeCounter [Click Decrement] = Finite (- 1)"
  by (auto simp add: update_deltas DataAttributeCounter_def final_def run_def mount_def
      settled_def Num_exact data_change_def)

theorem DataAttributeCounter_deltas_witness:
  "- (2 ^ 53) < (5 :: int) \<and> (5 :: int) < 2 ^ 53 \<and>
   basicStateReducer (Finite 5) (onClick DataAttributeCounter (Finite 5) Decrement) = Finite 4 \<and>
   basicStateReducer (Finite 5) (onClick DataAttributeCounter (Finite 5) Increment) = Finite 6"
  using DataAttributeCounter_deltas [of "Finite 5" Increment 5]
  by (simp add: DataAttributeCounter_def data_change_def update_deltas Num_exact)

text \<open>
  C9 as stated does not hold at every integer count: from the count \<open>2 ^ 53\<close> the
  increment gives \<open>2 ^ 53\<close> and the decrement after it \<open>2 ^ 53 - 1\<close>, which is not
  the original count.
\<close>

theorem increment_decrement_at_2_53_counterexample:
  "reducer (reducer \<lparr>count = Finite (2 ^ 53)\<rparr> \<lparr>type = ''increment''\<rparr>) \<lparr>type = ''decrement''\<rparr>
   = \<lparr>count = Finite (2 ^ 53 - 1)\<rparr>"
  using Num_above by (simp add: reducer_def Num_exact)

text \<open>
  C9, amended. In every variant and for every integer count below \<open>2 ^ 53\<close> in
  magnitude, an increment activation followed by a decrement activation, each applied
  to the state on display, gives back the original count, and so does a decrement
  followed by an increment. For the reducer itself:
  \<^verbatim>\<open>reducer(reducer(s, increment), decrement)\<close> has the count of \<open>s\<close>.
\<close>

theorem increment_decrement_inverse:
  "\<bar>n\<bar> < 2 ^ 53 \<Longrightarrow>
   activate BasicCounter (activate BasicCounter (Finite n) Increment) Decrement = Finite n \<and>
   activate BasicCounter (activate BasicCounter (Finite n) Decrement) Increment = Finite n \<and>
   activate FunctionalCounter (activate FunctionalCounter (Finite n) Increment) Decrement
     = Finite n \<and>
   activate FunctionalCounter (activate FunctionalCounter (Finite n) Decrement) Increment
     = Finite n \<and>
   activate CallbackCounter (activate CallbackCounter (Finite n) Increment) Decrement
     = Finite n \<and>
   activate CallbackCounter (activate CallbackCounter (Finite n) Decrement) Increment
     = Finite n \<and>
   activate DataAttributeCounter (activate DataAttributeCounter (Finite n) Increment) Decrement
     = Finite n \<and>
   activate DataAttributeCounter (activate DataAttributeCounter (Finite n) Decrement) Increment
     = Finite n \<and>
   activate ReducerCounter (activate ReducerCounter \<lparr>count = Finite n\<rparr> Increment) Decrement
     = \<lparr>count = Finite n\<rparr> \<and>
   activate ReducerCounter (activate ReducerCounter \<lparr>count = Finite n\<rparr> Decrement) Increment
     = \<lparr>count = Finite n\<rparr> \<and>
   reducer (reducer \<lparr>count = Finite n\<rparr> \<lparr>type = ''increment''\<rparr>) \<lparr>type = ''decrement''\<rparr>
     = \<lparr>count = Finite n\<rparr> \<and>
   reducer (reducer \<lparr>count = Finite n\<rparr> \<lparr>type = ''decrement''\<rparr>) \<lparr>type = ''increment''\<rparr>
     = \<lparr>count = Finite n\<rparr>"
  by (simp add: activate_eq BasicCounter_def FunctionalCounter_def CallbackCounter_def
      increase_def decrease_def DataAttributeCounter_def update_controls ReducerCounter_def
      reducer_def Num_exact)

theorem increment_decrement_inverse_witness:
  "\<bar>7 :: int\<bar> < 2 ^ 53 \<and>
   activate BasicCounter (activate BasicCounter (Finite 7) Increment) Decrement = Finite 7 \<and>
   activate FunctionalCounter (activate FunctionalCounter (Finite 7) Decrement) Increment
     = Finite 7 \<and>
   reducer (reducer \<lparr>count = Finite 7\<rparr> \<lparr>type = ''increment''\<rparr>) \<lparr>type = ''decrement''\<rparr>
     = \<lparr>count = Finite 7\<rparr>"
  using increment_decrement_inverse [of 7] by simp

text \<open>
  C10. The reducer never changes the object it is given. Every object of the store,
  the input state among them, has the same properties after the call as before. For
  \<^verbatim>\<open>'increment'\<close> and \<^verbatim>\<open>'decrement'\<close> the result is a reference to an object
  allocated by the call, different from the input; for any other action the result is
  the input reference itself and the store is the same.
\<close>

theorem reducer_does_not_mutate:
  "state < length h \<Longrightarrow> reducer_obj h state action = (h', r) \<Longrightarrow>
   (\<forall>p < length h. h' ! p = h ! p) \<and> h' ! state = h ! state \<and>
   (type action = ''increment'' \<or> type action = ''decrement'' \<longrightarrow>
      r = length h \<and> r \<noteq> state \<and> length h' = Suc (length h)) \<and>
   (type action \<noteq> ''increment'' \<and> type action \<noteq> ''decrement'' \<longrightarrow> r = state \<and> h' = h)"
  by (auto simp: reducer_obj_def alloc_def nth_append split: if_splits)

theorem reducer_does_not_mutate_witness:
  "(0 :: nat) < length [[(''count'', Num 3)]] \<and>
   reducer_obj [[(''count'', Num 3)]] 0 \<lparr>type = ''increment''\<rparr>
     = ([[(''count'', Num 3)], [(''count'', Num 4)]], 1) \<and>
   [[(''count'', Num 3)], [(''count'', Num 4)]] ! 0 = [[(''count'', Num 3)]] ! 0 \<and>
   (1 :: nat) = length [[(''count'', Num 3)]] \<and> (1 :: nat) \<noteq> 0 \<and>
   type \<lparr>type = ''reset''\<rparr> \<noteq> ''increment'' \<and> type \<lparr>type = ''reset''\<rparr> \<noteq> ''decrement'' \<and>
   reducer_obj [[(''count'', Num 3)]] 0 \<lparr>type = ''reset''\<rparr> = ([[(''count'', Num 3)]], 0)"
  using reducer_does_not_mutate [of 0 "[[(''count'', Num 3)]]" "\<lparr>type = ''increment''\<rparr>"
      "[[(''count'', Num 3)], [(''count'', Num 4)]]" 1]
    reducer_does_not_mutate [of 0 "[[(''count'', Num 3)]]" "\<lparr>type = ''reset''\<rparr>"
      "[[(''count'', Num 3)]]" 0]
  by (simp add: reducer_obj_def alloc_def get_prop_def toNumber_def Num_exact)

end
